theory Spec2Isabelle
  imports Complex_Main
begin

section \<open>Data model of the worker (langport/core/base_worker.py)\<close>

text \<open>
  Python exceptions that the modelled code can raise.
\<close>

datatype error =
  KeyError | AssertionError | RequestException | ZeroDivisionError | RuntimeError

text \<open>
  A task carries the fields the worker code reads: \<open>task_id\<close> (BaseWorkerTask) and the
  generation parameters (GenerationTask). Python's unbounded integers are \<open>int\<close>; Python's
  floats are modelled as \<open>real\<close>, so the thresholds \<open>1e-5\<close>, \<open>1e-8\<close> and \<open>1.0\<close>
  are the exact rationals (no NaN, no rounding).
\<close>

record task =
  task_id :: string
  prompt :: string
  max_new_tokens :: int
  temperature :: real
  repetition_penalty :: real
  top_p :: real
  top_k :: int

record usage_info =
  prompt_tokens :: int
  total_tokens :: int
  completion_tokens :: int

text \<open>
  The two result classes the worker code constructs. \<open>res_type\<close> is the Python field
  \<open>type\<close>, one of the strings \<open>''data''\<close>, \<open>''done''\<close>, \<open>''error''\<close>.
\<close>

datatype result =
    BaseWorkerResult (res_task_id: string) (res_type: string)
  | GenerationWorkerResult (res_task_id: string) (res_type: string)
      (res_text: string) (res_usage: usage_info)

text \<open>
  The semaphore object as \<open>get_queue_length\<close> reads it: the private fields \<open>_value\<close> and
  \<open>_waiters\<close>, either of which the code tests against \<open>None\<close>. Waiters are identified by
  natural numbers.
\<close>

record semaphore =
  sem_value :: "int option"
  sem_waiters :: "nat list option"

text \<open>
  An interval timer is represented by its interval in seconds and the name of its callback.
  Everything the worker does to the outside world (starting or cancelling a timer, an HTTP
  POST to the controller) is recorded, in order, in the ghost field \<open>trace\<close>.
\<close>

record timer =
  interval :: real
  callback :: string

datatype action = TimerStart string | TimerCancel string | Post string

text \<open>
  The worker object. \<open>timers\<close> is a Python dict; it is kept as an association list in
  insertion order, the order in which \<open>stop\<close> iterates over it. \<open>task_output\<close> is a dict
  from task ids to list objects; a list object is an address into \<open>heap\<close>, so that a
  consumer that still holds the old list after the dict entry has been rebound is
  distinguished from one that reads the new list. \<open>next_addr\<close> is the first address
  not yet given to a list object.
\<close>

record worker =
  controller_addr :: string
  limit_model_concurrency :: int
  max_batch_size :: int
  model_semaphore :: "semaphore option"
  task_queue :: "task list"
  task_output :: "string \<rightharpoonup> nat"
  heap :: "nat \<Rightarrow> result list"
  next_addr :: nat
  timers :: "(string \<times> timer) list"
  online :: bool
  trace :: "action list"

section \<open>Task queue: \<open>add_task\<close>, \<open>fetch_tasks\<close>, \<open>push_task_result\<close>\<close>

text \<open>
  \<^verbatim>\<open>
  def add_task(self, task):
      self.task_queue.append(task)
      self.task_output[task.task_id] = []
  \<close>
  The fresh list \<open>[]\<close> is a new object: it gets the next free address.
\<close>

definition add_task :: "task \<Rightarrow> worker \<Rightarrow> worker" where
  "add_task t w =
     w\<lparr>task_queue := task_queue w @ [t],
       heap := (heap w)(next_addr w := []),
       next_addr := Suc (next_addr w),
       task_output := (task_output w)(task_id t \<mapsto> next_addr w)\<rparr>"

text \<open>
  \<^verbatim>\<open>
  def fetch_tasks(self):
      task_batch = []
      while len(task_batch) <= self.max_batch_size and len(self.task_queue) > 0:
          task = self.task_queue.pop(0)
          task_batch.append(task)
      return task_batch
  \<close>
\<close>

function fetch_tasks_loop :: "int \<Rightarrow> 'a list \<Rightarrow> 'a list \<Rightarrow> 'a list \<times> 'a list" where
  "fetch_tasks_loop mbs task_batch queue =
     (if int (length task_batch) \<le> mbs \<and> length queue > 0
      then fetch_tasks_loop mbs (task_batch @ [hd queue]) (tl queue)
      else (task_batch, queue))"
  by pat_completeness auto
termination
  by (relation "measure (\<lambda>(mbs, task_batch, queue). length queue)") auto

declare fetch_tasks_loop.simps [simp del]

definition fetch_tasks :: "worker \<Rightarrow> task list \<times> worker" where
  "fetch_tasks w =
     (case fetch_tasks_loop (max_batch_size w) [] (task_queue w) of
        (task_batch, queue') \<Rightarrow> (task_batch, w\<lparr>task_queue := queue'\<rparr>))"

text \<open>
  \<^verbatim>\<open>
  def push_task_result(self, task_id, response):
      self.task_output[task_id].append(response)
  \<close>
  The dict lookup raises \<open>KeyError\<close> when the task id has no channel.
\<close>

definition push_task_result :: "string \<Rightarrow> result \<Rightarrow> worker \<Rightarrow> error + worker" where
  "push_task_result tid response w =
     (case task_output w tid of
        None \<Rightarrow> Inl KeyError
      | Some a \<Rightarrow> Inr (w\<lparr>heap := (heap w)(a := heap w a @ [response])\<rparr>))"

text \<open>
  \<^verbatim>\<open>
  async def fetch_task_result(self, task_id):
      out_queue = self.task_output[task_id]
      while True:
          if len(out_queue) <= 0:
              await asyncio.sleep(0.1)
              continue
          event = out_queue.pop(0)
          if event.type == "done":
              break
          elif event.type == "error":
              yield event
              break
          else:
              yield event
          await asyncio.sleep(0.1)
      del self.task_output[task_id]
  \<close>
  The coroutine is suspended at every \<open>sleep\<close> and \<open>yield\<close>; meanwhile the inference
  timer pushes results. A schedule lists, for each suspension in turn, the pushes
  \<open>(task_id, response)\<close> made during it; after the last entry nothing is pushed any more.
  A push that raises \<open>KeyError\<close> in the pushing thread leaves the worker as it is.
\<close>

type_synonym schedule = "(string \<times> result) list list"

definition deliver :: "(string \<times> result) list \<Rightarrow> worker \<Rightarrow> worker" where
  "deliver ps w =
     fold (\<lambda>(tid, response) w. case push_task_result tid response w of
                                  Inl e \<Rightarrow> w | Inr w' \<Rightarrow> w') ps w"

fun suspend :: "schedule \<Rightarrow> worker \<Rightarrow> schedule \<times> worker" where
  "suspend [] w = ([], w)"
| "suspend (ps # sched) w = (sched, deliver ps w)"

text \<open>
  The \<open>while True\<close> loop on the list object \<open>out_queue\<close>. It returns the events yielded
  to the caller, in order, and the worker when the loop is left. With the queue empty and
  the schedule exhausted the loop polls for ever: the result is \<open>None\<close>.
\<close>

function fetch_loop :: "schedule \<Rightarrow> nat \<Rightarrow> worker \<Rightarrow> (result list \<times> worker) option" where
  "fetch_loop sched out_queue w =
     (if length (heap w out_queue) \<le> 0 then
        (if sched = [] then None
         else fetch_loop (fst (suspend sched w)) out_queue (snd (suspend sched w)))
      else
        (let event = hd (heap w out_queue);
             w' = w\<lparr>heap := (heap w)(out_queue := tl (heap w out_queue))\<rparr>
         in if res_type event = ''done'' then Some ([], w')
            else if res_type event = ''error'' then Some ([event], w')
            else map_option (\<lambda>(events, w''). (event # events, w''))
                   (fetch_loop (fst (suspend sched w')) out_queue (snd (suspend sched w')))))"
  by pat_completeness auto
termination
proof (relation "measures [\<lambda>(sched, out_queue, w). length sched,
                           \<lambda>(sched, out_queue, w). length (heap w out_queue)]",
       goal_cases)
  case 1
  show ?case by simp
next
  case (2 sched out_queue w)
  then show ?case by (cases sched) auto
next
  case (3 sched out_queue w event w')
  then show ?case by (cases sched) auto
qed

declare fetch_loop.simps [simp del]

text \<open>
  The generator as a whole: the events yielded, the exception that ended it (if any) and
  the worker afterwards; \<open>None\<close> when it never finishes.
\<close>

definition fetch_task_result ::
  "schedule \<Rightarrow> string \<Rightarrow> worker \<Rightarrow> (result list \<times> error option \<times> worker) option" where
  "fetch_task_result sched tid w =
     (case task_output w tid of
        None \<Rightarrow> Some ([], Some KeyError, w)
      | Some out_queue \<Rightarrow>
          (case fetch_loop sched out_queue w of
             None \<Rightarrow> None
           | Some (events, w') \<Rightarrow>
               (case task_output w' tid of
                  None \<Rightarrow> Some (events, Some KeyError, w')
                | Some a \<Rightarrow>
                    Some (events, None, w'\<lparr>task_output := (task_output w')(tid := None)\<rparr>))))"

section \<open>Lifecycle: timers, registration, \<open>start\<close> and \<open>stop\<close>\<close>

text \<open>\<open>WORKER_HEART_BEAT_CHECK_INTERVAL\<close> of langport/constants.py.\<close>

definition WORKER_HEART_BEAT_CHECK_INTERVAL :: real where
  "WORKER_HEART_BEAT_CHECK_INTERVAL = 5"

text \<open>
  \<^verbatim>\<open>
  def add_timer(self, name, interval, fn) -> bool:
      if name in self.timers:
          return False
      new_timer = IntervalTimer(interval=interval, fn=fn, args=(self,))
      self.timers[name] = new_timer
      new_timer.start()
      return True
  \<close>
\<close>

definition add_timer :: "string \<Rightarrow> real \<Rightarrow> string \<Rightarrow> worker \<Rightarrow> bool \<times> worker" where
  "add_timer name ivl fn w =
     (if name \<in> set (map fst (timers w)) then (False, w)
      else (True, w\<lparr>timers := timers w @ [(name, \<lparr>interval = ivl, callback = fn\<rparr>)],
                     trace := trace w @ [TimerStart name]\<rparr>))"

text \<open>
  The answer of the controller to one \<open>requests.post\<close>: a status code, or no answer at all
  (\<open>requests\<close> raises a \<open>RequestException\<close>). It is an input of the model.
  \<^verbatim>\<open>
  def register_to_controller(self):
      url = self.controller_addr + "/register_worker"
      ...
      r = requests.post(url, json=data.dict(), timeout=WORKER_API_TIMEOUT)
      assert r.status_code == 200

  def remove_from_controller(self):
      url = self.controller_addr + "/remove_worker"
      ...
      r = requests.post(url, json=data.dict(), timeout=WORKER_API_TIMEOUT)
      assert r.status_code == 200
  \<close>
  Both return the exception raised, if any, and the worker with the call traced.
\<close>

datatype reply = Status int | NoReply

definition post_and_assert :: "string \<Rightarrow> reply \<Rightarrow> worker \<Rightarrow> error option \<times> worker" where
  "post_and_assert url r w =
     (let w' = w\<lparr>trace := trace w @ [Post url]\<rparr>
      in case r of
           NoReply \<Rightarrow> (Some RequestException, w')
         | Status status_code \<Rightarrow>
             (if status_code = 200 then (None, w') else (Some AssertionError, w')))"

definition register_to_controller :: "reply \<Rightarrow> worker \<Rightarrow> error option \<times> worker" where
  "register_to_controller r w = post_and_assert (controller_addr w @ ''/register_worker'') r w"

definition remove_from_controller :: "reply \<Rightarrow> worker \<Rightarrow> error option \<times> worker" where
  "remove_from_controller r w = post_and_assert (controller_addr w @ ''/remove_worker'') r w"

text \<open>
  \<^verbatim>\<open>
  def start(self):
      if self.online:
          return
      self.add_timer("heartbeat", WORKER_HEART_BEAT_CHECK_INTERVAL, WorkerHeartBeat())
      self.register_to_controller()
      self.online = True

  def stop(self):
      if not self.online:
          return
      for name, timer in self.timers.items():
          timer.cancel()
      self.timers.clear()
      self.remove_from_controller()
      self.online = False
  \<close>
  The reply argument is the controller's answer to the POST, should the call make one.
\<close>

definition start :: "reply \<Rightarrow> worker \<Rightarrow> error option \<times> worker" where
  "start r w =
     (if online w then (None, w)
      else
        (let w1 = snd (add_timer ''heartbeat'' WORKER_HEART_BEAT_CHECK_INTERVAL
                         ''WorkerHeartBeat'' w)
         in case register_to_controller r w1 of
              (Some e, w2) \<Rightarrow> (Some e, w2)
            | (None, w2) \<Rightarrow> (None, w2\<lparr>online := True\<rparr>)))"

definition stop :: "reply \<Rightarrow> worker \<Rightarrow> error option \<times> worker" where
  "stop r w =
     (if \<not> online w then (None, w)
      else
        (let w1 = w\<lparr>trace := trace w @ map (\<lambda>(name, timer). TimerCancel name) (timers w)\<rparr>;
             w2 = w1\<lparr>timers := []\<rparr>
         in case remove_from_controller r w2 of
              (Some e, w3) \<Rightarrow> (Some e, w3)
            | (None, w3) \<Rightarrow> (None, w3\<lparr>online := False\<rparr>)))"

section \<open>Queue length reported to the controller\<close>

text \<open>
  \<^verbatim>\<open>
  def get_queue_length(self):
      if (self.model_semaphore is None
          or self.model_semaphore._value is None
          or self.model_semaphore._waiters is None):
          return 0
      else:
          return (self.limit_model_concurrency
                  - self.model_semaphore._value
                  + len(self.model_semaphore._waiters))
  \<close>
\<close>

definition get_queue_length :: "worker \<Rightarrow> int" where
  "get_queue_length w =
     (case model_semaphore w of
        None \<Rightarrow> 0
      | Some sem \<Rightarrow>
          (case sem_value sem of
             None \<Rightarrow> 0
           | Some v \<Rightarrow>
               (case sem_waiters sem of
                  None \<Rightarrow> 0
                | Some ws \<Rightarrow> limit_model_concurrency w - v + int (length ws))))"

section \<open>Batched decoding (langport/core/generation_worker.py)\<close>

subsection \<open>The logits-processing chain\<close>

text \<open>
  The four processor classes of the transformers library, as named variants.
  \<^verbatim>\<open>
  def prepare_logits_processor(temperature, repetition_penalty, top_p, top_k):
      processor_list = LogitsProcessorList()
      if temperature >= 1e-5 and temperature != 1.0:
          processor_list.append(TemperatureLogitsWarper(temperature))
      if repetition_penalty > 1.0:
          processor_list.append(RepetitionPenaltyLogitsProcessor(repetition_penalty))
      if 1e-8 <= top_p < 1.0:
          processor_list.append(TopPLogitsWarper(top_p))
      if top_k > 0:
          processor_list.append(TopKLogitsWarper(top_k))
      return processor_list
  \<close>
\<close>

datatype logits_processor =
    TemperatureLogitsWarper real
  | RepetitionPenaltyLogitsProcessor real
  | TopPLogitsWarper real
  | TopKLogitsWarper int

definition prepare_logits_processor ::
  "real \<Rightarrow> real \<Rightarrow> real \<Rightarrow> int \<Rightarrow> logits_processor list" where
  "prepare_logits_processor t r p k =
     (let processor_list = [];
          processor_list = (if t \<ge> 1 / 100000 \<and> t \<noteq> 1
                            then processor_list @ [TemperatureLogitsWarper t]
                            else processor_list);
          processor_list = (if r > 1
                            then processor_list @ [RepetitionPenaltyLogitsProcessor r]
                            else processor_list);
          processor_list = (if 1 / 100000000 \<le> p \<and> p < 1
                            then processor_list @ [TopPLogitsWarper p]
                            else processor_list);
          processor_list = (if k > 0
                            then processor_list @ [TopKLogitsWarper k]
                            else processor_list)
      in processor_list)"

subsection \<open>The external collaborators\<close>

text \<open>
  The model, the tokenizer and the tensor library are outside the repository; the decoding
  pass is parameterised by them.
  \<^item> \<open>forward past_key_values input_ids\<close> is one call of the model on the batch context:
    it returns \<open>logits[:, -1, :]\<close>, one row of scores per task, and the new cache. (The
    encoder outputs and decoder start ids, the same at every step, are part of it.)
  \<^item> \<open>warp processor input_ids scores\<close> is the score matrix that one processor of the
    chain returns when called on a score matrix.
  \<^item> \<open>in_place processor\<close> says whether the processor writes its result into the tensor
    it was given and returns that tensor (as the repetition penalty does with
    \<open>scatter_\<close>), or leaves its argument alone and returns a new tensor.
  \<^item> \<open>softmax scores\<close> is \<open>torch.softmax\<close>, the normalised exponentials of the scores
    (floating-point arithmetic of the tensor library).
  \<^item> \<open>multinomial step i probs\<close> is the token that \<open>torch.multinomial\<close> draws for task
    \<open>i\<close> at step \<open>step\<close>; every draw of a pass has its own \<open>(step, i)\<close>, so any sequence
    of random draws is such a function.
  \<^item> \<open>encode prompts\<close> is the tokenizer call with right padding to the longest prompt:
    the padded id matrix and the list \<open>length\<close> of true prompt lengths.
  \<^item> \<open>decode\<close> and \<open>eos_token_id\<close> are the tokenizer's.
\<close>

record 'kv backend =
  forward :: "'kv option \<Rightarrow> int list list \<Rightarrow> real list list \<times> 'kv"
  warp :: "logits_processor \<Rightarrow> int list list option \<Rightarrow> real list list \<Rightarrow> real list list"
  in_place :: "logits_processor \<Rightarrow> bool"
  softmax :: "real list \<Rightarrow> real list"
  multinomial :: "nat \<Rightarrow> nat \<Rightarrow> real list \<Rightarrow> int"
  encode :: "string list \<Rightarrow> int list list \<times> nat list"
  decode :: "int list \<Rightarrow> string"
  eos_token_id :: int

text \<open>
  \<open>torch.argmax\<close> returns the index of the first maximal score. Python's \<open>max\<close> and
  \<open>min\<close> of a non-empty list are folds.
\<close>

definition argmax :: "real list \<Rightarrow> int" where
  "argmax xs = int (length (takeWhile (\<lambda>x. x < fold max xs (hd xs)) xs))"

definition maximum :: "'a::linorder list \<Rightarrow> 'a" where
  "maximum xs = fold max (tl xs) (hd xs)"

definition minimum :: "'a::linorder list \<Rightarrow> 'a" where
  "minimum xs = fold min (tl xs) (hd xs)"

text \<open>
  \<open>torch.cat((matrix, vector), dim=1)\<close> as \<open>batch_generation\<close> calls it, on the
  two-dimensional context and the one-dimensional tensor of the new ids: the tensor library
  requires all tensors to have the same number of dimensions and raises \<open>RuntimeError\<close>;
  only an empty one-dimensional tensor is accepted, and skipped.
\<close>

definition torch_cat :: "int list list \<Rightarrow> int list \<Rightarrow> error + int list list" where
  "torch_cat matrix vector = (if vector = [] then Inr matrix else Inl RuntimeError)"

text \<open>
  A \<open>for\<close> loop whose body may raise: the first exception ends it. The state reached
  when the exception is raised is kept, since what a generator has yielded before it
  raises has been delivered.
\<close>

fun for_each ::
  "('a \<Rightarrow> 's \<Rightarrow> 's \<times> error option) \<Rightarrow> 'a list \<Rightarrow> 's \<Rightarrow> 's \<times> error option" where
  "for_each body [] s = (s, None)"
| "for_each body (x # xs) s =
     (case body x s of
        (s', Some e) \<Rightarrow> (s', Some e)
      | (s', None) \<Rightarrow> for_each body xs s')"

subsection \<open>Choosing the token of one task\<close>

text \<open>
  A \<open>LogitsProcessorList\<close> called on \<open>(input_ids, scores)\<close> runs
  \<open>scores = processor(input_ids, scores)\<close> for its processors in order. The chain is
  called on \<open>logits[:, -1, :]\<close>, a view of the scores of the step: \<open>view\<close> is that
  matrix, \<open>scores\<close> the current tensor and \<open>shared\<close> says whether the current tensor
  still is the view. A processor that works in place on the view changes the scores that
  the tasks after this one read. The result is the tensor returned and the view afterwards.
\<close>

fun run_chain ::
  "'kv backend \<Rightarrow> logits_processor list \<Rightarrow> int list list option \<Rightarrow> real list list
     \<Rightarrow> real list list \<Rightarrow> bool \<Rightarrow> real list list \<times> real list list" where
  "run_chain B [] ids view scores shared = (scores, view)"
| "run_chain B (processor # rest) ids view scores shared =
     (let out = warp B processor ids scores
      in if in_place B processor
         then run_chain B rest ids (if shared then out else view) out shared
         else run_chain B rest ids view out False)"

text \<open>
  Lines 141 to 164 of \<open>batch_generation\<close>, for task \<open>i\<close> at one step; \<open>logits\<close> is the
  matrix \<open>logits[:, -1, :]\<close> as the tasks before this one left it.
  \<^verbatim>\<open>
  task = tasks[i]
  last_token_logits = logits[i][-1]

  logits_processor = logits_processor_list[i]
  if logits_processor:
      if task.repetition_penalty > 1.0:
          tmp_output_ids = input_ids[i, :].unsqueeze(0)
      else:
          tmp_output_ids = None
      last_token_logits = logits_processor(tmp_output_ids, logits[:, -1, :])[0]
  else:
      last_token_logits = logits[0, -1, :]
  ...
  if task.temperature < 1e-5 or task.top_p < 1e-8:  # greedy
      token = int(torch.argmax(last_token_logits))
  else:
      probs = torch.softmax(last_token_logits, dim=-1)
      token = int(torch.multinomial(probs, num_samples=1))
  \<close>
  The first assignment to \<open>last_token_logits\<close> is overwritten on both branches. A
  \<open>LogitsProcessorList\<close> is a list, true when non-empty. The move of the scores to the
  CPU on the \<open>mps\<close> device does not change them and is left out. The result is the token
  and the score matrix of the step afterwards.
\<close>

definition next_token ::
  "'kv backend \<Rightarrow> nat \<Rightarrow> task \<Rightarrow> logits_processor list \<Rightarrow> int list list \<Rightarrow> real list list
     \<Rightarrow> nat \<Rightarrow> int \<times> real list list" where
  "next_token B step task logits_processor ids logits i =
     (let last_token_logits = logits ! i;
          (last_token_logits, logits) =
            (if logits_processor \<noteq> [] then
               (let tmp_output_ids =
                      (if repetition_penalty task > 1 then Some [ids ! i] else None);
                    (scores, logits) =
                      run_chain B logits_processor tmp_output_ids logits logits True
                in (scores ! 0, logits))
             else (logits ! 0, logits));
          token =
            (if temperature task < 1 / 100000 \<or> top_p task < 1 / 100000000
             then argmax last_token_logits
             else (let probs = softmax B last_token_logits
                   in multinomial B step i probs))
      in (token, logits))"

subsection \<open>The decoding pass\<close>

text \<open>
  The variables of the pass that change: the shared context \<open>input_ids\<close>, the model
  cache, the score matrix \<open>logits\<close> of the current step, \<open>is_stop\<close>, the \<open>new_ids\<close> of
  the current step, and the events yielded so far.
\<close>

record 'kv decode_state =
  input_ids :: "int list list"
  past_key_values :: "'kv option"
  logits :: "real list list"
  is_stop :: "bool list"
  new_ids :: "int list"
  yielded :: "result list"

text \<open>
  The body of \<open>for i in range(batch_size)\<close>, lines 141 to 190:
  \<^verbatim>\<open>
  (token chosen as above)
  if current_len < length[i]:
      new_ids.append(full_input_ids[i, current_len])
  else:
      new_ids.append(token)

  if token == tokenizer.eos_token_id:
      is_stop[i] = True
  else:
      is_stop[i] = False

  if step % stream_interval == 0 or step == max_new_tokens - 1 or is_stop[i]:
      output = tokenizer.decode(new_ids, skip_special_tokens=True)
      yield GenerationWorkerResult(
          task_id=task.task_id, type="data", text=output,
          usage=UsageInfo(prompt_tokens=length[i], total_tokens=length[i] + step,
                          completion_tokens=step))

  if is_stop[i]:
      yield BaseWorkerResult(task_id=task.task_id, type="done")
  \<close>
  \<open>step % stream_interval\<close> raises \<open>ZeroDivisionError\<close> when the interval is 0; integer
  \<open>mod\<close> in HOL takes the sign of the divisor, as Python's \<open>%\<close> does. The tokenizer
  returns one length and one row of ids per task, each row at least as long as its
  length, so that \<open>length[i]\<close> and \<open>full_input_ids[i, current_len]\<close> are read in range;
  the theorems state this where they depend on it.
\<close>

definition task_step ::
  "'kv backend \<Rightarrow> int \<Rightarrow> task list \<Rightarrow> logits_processor list list \<Rightarrow> int list list
     \<Rightarrow> nat list \<Rightarrow> int \<Rightarrow> nat \<Rightarrow> nat \<Rightarrow> nat
     \<Rightarrow> 'kv decode_state \<Rightarrow> 'kv decode_state \<times> error option" where
  "task_step B stream_interval tasks logits_processor_list full_input_ids lengths max_new
     step current_len i st =
     (let task = tasks ! i;
          (token, scores) =
            next_token B step task (logits_processor_list ! i) (input_ids st) (logits st) i;
          st = st\<lparr>logits := scores\<rparr>;
          st = st\<lparr>new_ids := new_ids st @
                      [if current_len < lengths ! i then full_input_ids ! i ! current_len
                       else token]\<rparr>;
          st = st\<lparr>is_stop := (is_stop st)[i := (token = eos_token_id B)]\<rparr>
      in if stream_interval = 0 then (st, Some ZeroDivisionError)
         else
           (let st = (if int step mod stream_interval = 0 \<or> int step = max_new - 1
                         \<or> is_stop st ! i
                      then st\<lparr>yielded := yielded st @
                             [GenerationWorkerResult (task_id task) ''data''
                                (decode B (new_ids st))
                                \<lparr>prompt_tokens = int (lengths ! i),
                                 total_tokens = int (lengths ! i) + int step,
                                 completion_tokens = int step\<rparr>]\<rparr>
                      else st);
                st = (if is_stop st ! i
                      then st\<lparr>yielded := yielded st @
                             [BaseWorkerResult (task_id task) ''done'']\<rparr>
                      else st)
            in (st, None)))"

text \<open>
  The body of \<open>for step in range(max_new_tokens)\<close>, lines 119 to 195: one call of the
  model, the loop over the tasks, and
  \<^verbatim>\<open>
  input_ids = torch.cat(
      (input_ids, torch.tensor(new_ids, dtype=torch.long, device=input_ids.device)),
      dim=1)
  \<close>
  where \<open>input_ids\<close> has two dimensions and the tensor of the new ids has one.
\<close>

definition decode_step ::
  "'kv backend \<Rightarrow> int \<Rightarrow> task list \<Rightarrow> logits_processor list list \<Rightarrow> int list list
     \<Rightarrow> nat list \<Rightarrow> int \<Rightarrow> nat \<Rightarrow> 'kv decode_state \<Rightarrow> 'kv decode_state \<times> error option" where
  "decode_step B stream_interval tasks logits_processor_list full_input_ids lengths max_new
     step st =
     (let (scores, pkv) = forward B (past_key_values st) (input_ids st);
          st = st\<lparr>logits := scores\<rparr>;
          st = st\<lparr>past_key_values := Some pkv\<rparr>;
          st = st\<lparr>new_ids := []\<rparr>;
          current_len = length (hd (input_ids st))
      in case for_each
                (task_step B stream_interval tasks logits_processor_list full_input_ids
                   lengths max_new step current_len)
                [0..<length tasks] st of
           (st, Some e) \<Rightarrow> (st, Some e)
         | (st, None) \<Rightarrow>
             (case torch_cat (input_ids st) (new_ids st) of
                Inl e \<Rightarrow> (st, Some e)
              | Inr ids \<Rightarrow> (st\<lparr>input_ids := ids\<rparr>, None)))"

text \<open>
  \<^verbatim>\<open>
  def batch_generation(model, tokenizer, device, stream_interval, tasks):
      batch_size = len(tasks)
      if batch_size == 0:
          return
      prompts = [task.prompt for task in tasks]
      max_new_tokens = max([task.max_new_tokens for task in tasks])
      logits_processor_list = []
      for task in tasks:
          logits_processor = prepare_logits_processor(
              task.temperature, task.repetition_penalty, task.top_p, task.top_k)
          logits_processor_list.append(logits_processor)
      inputs = tokenizer(prompts, padding="longest", return_tensors="pt", return_length=True)
      full_input_ids = inputs.input_ids.to(device)
      length = inputs.length
      ...
      input_ids = full_input_ids[:, : min(length)]
      ...
      is_stop = [False] * batch_size
      for step in range(max_new_tokens):
          ...
  \<close>
  The generator is modelled by the state in which it ends, normally or with an exception:
  the state holds every event it yielded, in order, and the second component is the
  exception raised, if any.
\<close>

definition batch_generation ::
  "'kv backend \<Rightarrow> int \<Rightarrow> task list \<Rightarrow> 'kv decode_state \<times> error option" where
  "batch_generation B stream_interval tasks =
     (let batch_size = length tasks
      in if batch_size = 0
         then (\<lparr>input_ids = [], past_key_values = None, logits = [], is_stop = [],
                 new_ids = [], yielded = []\<rparr>, None)
         else
           (let prompts = map prompt tasks;
                max_new = maximum (map max_new_tokens tasks);
                logits_processor_list =
                  map (\<lambda>task. prepare_logits_processor (temperature task)
                                 (repetition_penalty task) (top_p task) (top_k task)) tasks;
                (full_input_ids, lengths) = encode B prompts;
                ids = map (take (minimum lengths)) full_input_ids
            in for_each
                 (decode_step B stream_interval tasks logits_processor_list full_input_ids
                    lengths max_new)
                 [0..<nat max_new]
                 \<lparr>input_ids = ids, past_key_values = None, logits = [],
                  is_stop = replicate batch_size False, new_ids = [], yielded = []\<rparr>))"

section \<open>Concrete workers, tasks and backends\<close>

text \<open>
  The worker as \<open>BaseModelWorker.__init__\<close> leaves it: empty queue, no channel, no timer,
  no semaphore, offline.
\<close>

definition init_worker :: "string \<Rightarrow> int \<Rightarrow> int \<Rightarrow> worker" where
  "init_worker addr limit max_batch =
     \<lparr>controller_addr = addr, limit_model_concurrency = limit, max_batch_size = max_batch,
      model_semaphore = None, task_queue = [], task_output = Map.empty,
      heap = (\<lambda>a. []), next_addr = 0, timers = [], online = False, trace = []\<rparr>"

text \<open>
  A task decoded greedily (temperature 0) whose parameters give an empty processing chain.
\<close>

definition greedy_task :: "string \<Rightarrow> int \<Rightarrow> task" where
  "greedy_task tid n =
     \<lparr>task_id = tid, prompt = tid, max_new_tokens = n, temperature = 0,
      repetition_penalty = 1, top_p = 1, top_k = 0\<rparr>"

text \<open>
  A backend that follows a script: the \<open>n\<close>-th call of the model (counted by the cache)
  returns the score matrix \<open>script n\<close>; the tokenizer returns the given padded ids and
  lengths, decodes token \<open>t < 10\<close> to the digit \<open>t\<close>, and has the end-of-sequence id 1.
\<close>

definition scripted ::
  "(nat \<Rightarrow> real list list) \<Rightarrow> int list list \<times> nat list \<Rightarrow> nat backend" where
  "scripted script enc =
     \<lparr>forward = (\<lambda>kv ids. case kv of None \<Rightarrow> (script 0, 1) | Some n \<Rightarrow> (script n, Suc n)),
      warp = (\<lambda>processor ids scores. scores),
      in_place = (\<lambda>processor. case processor of
                                  RepetitionPenaltyLogitsProcessor penalty \<Rightarrow> True
                                | _ \<Rightarrow> False),
      softmax = (\<lambda>scores. scores),
      multinomial = (\<lambda>step i probs. 0),
      encode = (\<lambda>prompts. enc),
      decode = map (\<lambda>t. ''0123456789'' ! nat t),
      eos_token_id = 1\<rparr>"

text \<open>Five tasks submitted to a fresh worker whose \<open>max_batch_size\<close> is 2.\<close>

definition five_queued :: worker where
  "five_queued =
     fold add_task (map (\<lambda>tid. greedy_task tid 1) [''a'', ''b'', ''c'', ''d'', ''e''])
       (init_worker ''http://controller'' 5 2)"

text \<open>
  The worker after task a was submitted and one event was pushed to its channel and not
  yet consumed.
\<close>

definition one_pending :: worker where
  "one_pending =
     (case push_task_result ''a'' (BaseWorkerResult ''a'' ''error'')
             (add_task (greedy_task ''a'' 1) (init_worker ''http://controller'' 5 2)) of
        Inl e \<Rightarrow> init_worker ''http://controller'' 5 2
      | Inr w \<Rightarrow> w)"

text \<open>
  Two greedy tasks with one-token prompts; at every step the model scores the three tokens
  of the vocabulary \<open>[0, 1, 5]\<close> for the first task and \<open>[7, 1, 0]\<close> for the second.
\<close>

definition two_task_scores :: "real list list" where
  "two_task_scores = [[0, 1, 5], [7, 1, 0]]"

definition two_task_backend :: "nat backend" where
  "two_task_backend = scripted (\<lambda>n. two_task_scores) ([[4], [5]], [1, 1])"


text \<open>One task with a one-token prompt; the model prefers token 2 at every step.\<close>

definition never_eos :: "nat backend" where
  "never_eos = scripted (\<lambda>n. [[0, 0, 5]]) ([[4]], [1])"

section \<open>Well-formed channels\<close>

text \<open>
  Every list object that \<open>task_output\<close> refers to has been allocated. This holds of the
  initial worker and is kept by every operation on the channels.
\<close>

definition channels_wf :: "worker \<Rightarrow> bool" where
  "channels_wf w \<longleftrightarrow> (\<forall>tid a. task_output w tid = Some a \<longrightarrow> a < next_addr w)"

section \<open>The admission limiter\<close>

text \<open>
  Modelled from the spec: the admission limiter. The repository's source never creates the
  semaphore (\<open>__init__\<close> sets \<open>model_semaphore = None\<close>) and has no \<open>acquire\<close> or
  \<open>release\<close>; \<open>get_queue_length\<close> only reads the counters \<open>_value\<close> and \<open>_waiters\<close>.
  The spec (sections 3 and 4.2) describes a limiter that holds \<open>capacity\<close>, the count
  \<open>in_use\<close> and the waiters, whose \<open>acquire\<close> and \<open>release\<close> bracket one decoding pass,
  and states its invariant for any sequence of \<open>acquire\<close> and \<open>release\<close> calls.
  It is modelled as a counting semaphore without an upper bound: \<open>permits\<close> is the
  counter the code reads as \<open>_value\<close>, initially the capacity; \<open>in_use\<close> counts the
  callers that hold a permit. \<open>acquire\<close> takes a permit if there is one and queues the
  caller otherwise; \<open>release\<close> hands the permit to the first waiter, or returns it when
  nobody waits, whether or not anybody holds one. The code tests \<open>_waiters\<close> against
  \<open>None\<close>: the collection of waiters either exists from the start or (\<open>lazy\<close>) is
  created when the first caller has to wait.
\<close>

record limiter =
  capacity :: int
  permits :: int
  in_use :: nat
  waiters :: "nat list option"

datatype limiter_op = Acquire nat | Release

definition new_limiter :: "int \<Rightarrow> bool \<Rightarrow> limiter" where
  "new_limiter c lazy =
     \<lparr>capacity = c, permits = c, in_use = 0, waiters = (if lazy then None else Some [])\<rparr>"

fun limiter_step :: "limiter_op \<Rightarrow> limiter \<Rightarrow> limiter" where
  "limiter_step (Acquire c) l =
     (if permits l > 0 then l\<lparr>permits := permits l - 1, in_use := Suc (in_use l)\<rparr>
      else l\<lparr>waiters := Some ((case waiters l of None \<Rightarrow> [] | Some ws \<Rightarrow> ws) @ [c])\<rparr>)"
| "limiter_step Release l =
     (case waiters l of
        Some (c # cs) \<Rightarrow> l\<lparr>waiters := Some cs, in_use := Suc (in_use l - 1)\<rparr>
      | _ \<Rightarrow> l\<lparr>permits := permits l + 1, in_use := in_use l - 1\<rparr>)"

fun run_ops :: "limiter_op list \<Rightarrow> limiter \<Rightarrow> limiter" where
  "run_ops [] l = l"
| "run_ops (x # xs) l = run_ops xs (limiter_step x l)"

text \<open>
  A sequence of operations in which every \<open>release\<close> is made while a permit is in use,
  as when \<open>acquire\<close> and \<open>release\<close> bracket a decoding pass.
\<close>

fun bracketed :: "limiter_op list \<Rightarrow> limiter \<Rightarrow> bool" where
  "bracketed [] l = True"
| "bracketed (Acquire c # xs) l = bracketed xs (limiter_step (Acquire c) l)"
| "bracketed (Release # xs) l = (0 < in_use l \<and> bracketed xs (limiter_step Release l))"

text \<open>The semaphore object that the worker sees for a limiter state.\<close>

definition semaphore_of :: "limiter \<Rightarrow> semaphore" where
  "semaphore_of l = \<lparr>sem_value = Some (permits l), sem_waiters = waiters l\<rparr>"

section \<open>What the consumer of a channel receives\<close>

text \<open>
  A terminal event is a \<open>done\<close> or an \<open>error\<close> event. \<open>delivered\<close> says, in the words of
  the loop of \<open>fetch_task_result\<close>, what a caller is handed from the sequence of events
  of a channel: every event before the first terminal one, then that terminal event if it
  is an \<open>error\<close>; a \<open>done\<close> event ends the sequence and is not handed over.
  \<open>arrivals sched tid\<close> are the events that a schedule pushes for a task id, in order.
\<close>

definition terminal :: "result \<Rightarrow> bool" where
  "terminal e \<longleftrightarrow> res_type e = ''done'' \<or> res_type e = ''error''"

fun delivered :: "result list \<Rightarrow> result list" where
  "delivered [] = []"
| "delivered (e # es) =
     (if res_type e = ''done'' then []
      else if res_type e = ''error'' then [e]
      else e # delivered es)"

definition arrivals :: "schedule \<Rightarrow> string \<Rightarrow> result list" where
  "arrivals sched tid = map snd (filter (\<lambda>(t, e). t = tid) (concat sched))"

text \<open>
  A \<open>data\<close> event with some usage counters; the worker after task a was submitted; the
  same worker after a \<open>data\<close> and a \<open>done\<close> event were pushed for a; and a schedule that
  pushes a \<open>data\<close> event for a during the first suspension of the consumer, and an event
  for an unknown task b and an \<open>error\<close> event for a during the second.
\<close>

definition data_event :: "string \<Rightarrow> string \<Rightarrow> result" where
  "data_event tid txt = GenerationWorkerResult tid ''data'' txt
     \<lparr>prompt_tokens = 1, total_tokens = 1, completion_tokens = 0\<rparr>"

definition submitted :: worker where
  "submitted = add_task (greedy_task ''a'' 1) (init_worker ''http://controller'' 5 2)"

definition data_done_pending :: worker where
  "data_done_pending =
     deliver [(''a'', data_event ''a'' ''2''), (''a'', BaseWorkerResult ''a'' ''done'')] submitted"

definition two_suspensions :: schedule where
  "two_suspensions =
     [[(''a'', data_event ''a'' ''2'')],
      [(''b'', data_event ''b'' ''3''), (''a'', BaseWorkerResult ''a'' ''error'')]]"

section \<open>A batch of two prompts of unequal length\<close>



section \<open>The first step of a pass\<close>



section \<open>The events of a task id\<close>


definition after_done :: "result list \<Rightarrow> result list" where
  "after_done es = tl (dropWhile (\<lambda>r. res_type r \<noteq> ''done'') es)"

section \<open>Theorems: the task queue\<close>

lemma fetch_tasks_loop_take_drop:
  "fetch_tasks_loop mbs task_batch queue =
     (task_batch @ take (nat (mbs + 1) - length task_batch) queue,
      drop (nat (mbs + 1) - length task_batch) queue)"
proof (induction mbs task_batch queue rule: fetch_tasks_loop.induct)
  case (1 mbs task_batch queue)
  show ?case
  proof (cases "int (length task_batch) \<le> mbs \<and> length queue > 0")
    case True
    then obtain q qs where q: "queue = q # qs" by (cases queue) auto
    from True have pos: "nat (mbs + 1) - length task_batch = Suc (nat (mbs + 1) - Suc (length task_batch))"
      by linarith
    have "fetch_tasks_loop mbs task_batch queue
            = fetch_tasks_loop mbs (task_batch @ [hd queue]) (tl queue)"
      using True by (subst fetch_tasks_loop.simps) simp
    also have "\<dots> = ((task_batch @ [hd queue]) @
                      take (nat (mbs + 1) - length (task_batch @ [hd queue])) (tl queue),
                    drop (nat (mbs + 1) - length (task_batch @ [hd queue])) (tl queue))"
      using "1.IH" True by simp
    finally show ?thesis
      using q pos by simp
  next
    case False
    from False have "\<not> (int (length task_batch) \<le> mbs \<and> length queue > 0)" .
    then have stop: "fetch_tasks_loop mbs task_batch queue = (task_batch, queue)"
      by (subst fetch_tasks_loop.simps) (simp only: if_False)
    from False have "queue = [] \<or> nat (mbs + 1) - length task_batch = 0"
      by auto
    then show ?thesis
      using stop by auto
  qed
qed

text \<open>
  What \<open>fetch_tasks\<close> returns in general: the first \<open>max_batch_size + 1\<close> queued tasks in
  arrival order (none when \<open>max_batch_size\<close> is negative), the queue keeping the rest.
\<close>

lemma fetch_tasks_take_drop:
  "fetch_tasks w =
     (take (nat (max_batch_size w + 1)) (task_queue w),
      w\<lparr>task_queue := drop (nat (max_batch_size w + 1)) (task_queue w)\<rparr>)"
  by (simp add: fetch_tasks_def fetch_tasks_loop_take_drop)

text \<open>
  Claim C4 says that \<open>fetch_tasks\<close> returns at most \<open>max_batch_size\<close> tasks from the front
  of the queue. The loop tests \<open>len(task_batch) <= self.max_batch_size\<close> before each pop,
  so it stops one task later: with \<open>max_batch_size = 2\<close> and the five tasks a, b, c, d, e
  queued, the batch is a, b, c (three tasks) and the queue keeps d, e. The order is the
  arrival order and the rest of the queue is the untaken suffix, as the claim says; the
  bound is not the one it states.
\<close>

theorem fetch_tasks_returns_max_batch_size_plus_one:
  "max_batch_size five_queued = 2
   \<and> map task_id (task_queue five_queued) = [''a'', ''b'', ''c'', ''d'', ''e'']
   \<and> map task_id (fst (fetch_tasks five_queued)) = [''a'', ''b'', ''c'']
   \<and> map task_id (task_queue (snd (fetch_tasks five_queued))) = [''d'', ''e'']"
  by code_simp

section \<open>Theorems: consuming a channel\<close>

lemma task_output_deliver [simp]: "task_output (deliver ps w) = task_output w"
proof -
  have "task_output (fold (\<lambda>(tid, response) w. case push_task_result tid response w of
                                  Inl e \<Rightarrow> w | Inr w' \<Rightarrow> w') ps w) = task_output w"
    by (induction ps arbitrary: w)
       (auto simp: push_task_result_def split: option.splits)
  then show ?thesis by (simp add: deliver_def)
qed

lemma heap_deliver:
  "heap (deliver ps w) a
     = heap w a @ map snd (filter (\<lambda>(t, e). task_output w t = Some a) ps)"
proof -
  have "heap (fold (\<lambda>(tid, response) w. case push_task_result tid response w of
                                  Inl e \<Rightarrow> w | Inr w' \<Rightarrow> w') ps w) a
     = heap w a @ map snd (filter (\<lambda>(t, e). task_output w t = Some a) ps)"
  proof (induction ps arbitrary: w)
    case Nil
    then show ?case by simp
  next
    case (Cons p ps)
    obtain t e where p: "p = (t, e)" by (cases p)
    show ?case
    proof (cases "task_output w t")
      case None
      then show ?thesis using Cons.IH [of w] p by (simp add: push_task_result_def)
    next
      case (Some b)
      let ?w = "w\<lparr>heap := (heap w)(b := heap w b @ [e])\<rparr>"
      have "task_output ?w = task_output w" by simp
      then show ?thesis using Cons.IH [of ?w] p Some by (simp add: push_task_result_def)
    qed
  qed
  then show ?thesis by (simp add: deliver_def)
qed

lemma heap_deliver_own:
  assumes "task_output w tid = Some a" and "\<forall>t. task_output w t = Some a \<longrightarrow> t = tid"
  shows "heap (deliver ps w) a = heap w a @ map snd (filter (\<lambda>(t, e). t = tid) ps)"
proof -
  have "filter (\<lambda>(t, e). task_output w t = Some a) ps = filter (\<lambda>(t, e). t = tid) ps"
  proof (rule filter_cong [OF refl])
    fix p :: "string \<times> result"
    obtain t e where p: "p = (t, e)" by (cases p)
    have "(task_output w t = Some a) = (t = tid)"
      using assms by blast
    then show "(case p of (t, e) \<Rightarrow> task_output w t = Some a) = (case p of (t, e) \<Rightarrow> t = tid)"
      by (simp add: p)
  qed
  then show ?thesis by (simp add: heap_deliver)
qed

lemma arrivals_Nil [simp]: "arrivals [] tid = []"
  by (simp add: arrivals_def)

lemma arrivals_Cons:
  "arrivals (ps # sched) tid = map snd (filter (\<lambda>(t, e). t = tid) ps) @ arrivals sched tid"
  by (simp add: arrivals_def)

lemma fetch_loop_delivered:
  assumes "task_output w tid = Some a"
    and "\<forall>t. task_output w t = Some a \<longrightarrow> t = tid"
    and "\<exists>e \<in> set (heap w a @ arrivals sched tid). terminal e"
  shows "\<exists>w'. fetch_loop sched a w = Some (delivered (heap w a @ arrivals sched tid), w')
              \<and> task_output w' = task_output w"
  using assms
proof (induction sched a w rule: fetch_loop.induct)
  case (1 sched a w)
  note out = "1.prems"(1) and own = "1.prems"(2) and trm = "1.prems"(3)
  show ?case
  proof (cases "heap w a")
    case Nil
    from trm Nil have "arrivals sched tid \<noteq> []" by auto
    then have ne: "sched \<noteq> []" by auto
    then obtain ps sched' where sched: "sched = ps # sched'" by (cases sched) auto
    define w1 where "w1 = deliver ps w"
    have susp: "fst (suspend sched w) = sched'" "snd (suspend sched w) = w1"
      by (simp_all add: sched w1_def)
    have to: "task_output w1 = task_output w" by (simp add: w1_def)
    have "heap w1 a = heap w a @ map snd (filter (\<lambda>(t, e). t = tid) ps)"
      unfolding w1_def by (rule heap_deliver_own [OF out own])
    then have h: "heap w1 a @ arrivals sched' tid = heap w a @ arrivals sched tid"
      by (simp only: sched arrivals_Cons append_assoc)
    have empty: "length (heap w a) \<le> 0" by (simp add: Nil)
    have "\<exists>w'. fetch_loop sched' a w1
                 = Some (delivered (heap w1 a @ arrivals sched' tid), w')
               \<and> task_output w' = task_output w1"
    proof (rule "1.IH"(1) [OF empty ne, unfolded susp])
      show "task_output w1 tid = Some a" unfolding to by (rule out)
      show "\<forall>t. task_output w1 t = Some a \<longrightarrow> t = tid" unfolding to by (rule own)
      show "\<exists>e\<in>set (heap w1 a @ arrivals sched' tid). terminal e"
        unfolding h by (rule trm)
    qed
    then obtain w' where
      r: "fetch_loop sched' a w1 = Some (delivered (heap w a @ arrivals sched tid), w')"
      and t: "task_output w' = task_output w"
      unfolding h to by blast
    have "fetch_loop sched a w = fetch_loop sched' a w1"
      by (subst fetch_loop.simps) (simp only: empty ne susp if_True if_False)
    with r t show ?thesis by simp
  next
    case (Cons e rest)
    define w1 where "w1 = w\<lparr>heap := (heap w)(a := tl (heap w a))\<rparr>"
    define w2 where "w2 = snd (suspend sched w1)"
    define sched2 where "sched2 = fst (suspend sched w1)"
    have to1: "task_output w1 = task_output w" by (simp add: w1_def)
    have out1: "task_output w1 tid = Some a"
      unfolding to1 by (rule out)
    have own1: "\<forall>t. task_output w1 t = Some a \<longrightarrow> t = tid"
      unfolding to1 by (rule own)
    have heap1: "heap w1 a = rest"
      by (simp add: w1_def Cons)
    have nonempty: "\<not> length (heap w a) \<le> 0" by (simp add: Cons)
    have hd_e: "hd (heap w a) = e" by (simp add: Cons)
    have unfold: "fetch_loop sched a w =
        (if res_type e = ''done'' then Some ([], w1)
         else if res_type e = ''error'' then Some ([e], w1)
         else map_option (\<lambda>(events, w''). (e # events, w'')) (fetch_loop sched2 a w2))"
      by (subst fetch_loop.simps)
         (simp only: nonempty if_False Let_def hd_e w1_def [symmetric] w2_def [symmetric]
            sched2_def [symmetric])
    show ?thesis
    proof (cases "res_type e = ''done''")
      case True
      then show ?thesis by (simp add: unfold Cons to1)
    next
      case nd: False
      show ?thesis
      proof (cases "res_type e = ''error''")
        case True
        then show ?thesis by (simp add: unfold Cons to1)
      next
        case ne: False
        have to2: "task_output w2 = task_output w"
          unfolding w2_def by (cases sched) (simp_all add: to1)
        have h: "heap w2 a @ arrivals sched2 tid = rest @ arrivals sched tid"
        proof (cases sched)
          case Nil
          then show ?thesis by (simp add: w2_def sched2_def heap1)
        next
          case (Cons ps sched')
          have "heap (deliver ps w1) a = heap w1 a @ map snd (filter (\<lambda>(t, e). t = tid) ps)"
            by (rule heap_deliver_own [OF out1 own1])
          then show ?thesis
            by (simp add: w2_def sched2_def Cons heap1 arrivals_Cons)
        qed
        from trm nd ne have trm': "\<exists>e \<in> set (rest @ arrivals sched tid). terminal e"
          by (auto simp: Cons terminal_def)
        have "\<exists>w'. fetch_loop sched2 a w2
                     = Some (delivered (heap w2 a @ arrivals sched2 tid), w')
                   \<and> task_output w' = task_output w2"
          unfolding sched2_def w2_def
        proof (rule "1.IH"(2) [OF nonempty refl w1_def])
          show "res_type (hd (heap w a)) \<noteq> ''done''" unfolding hd_e by (rule nd)
          show "res_type (hd (heap w a)) \<noteq> ''error''" unfolding hd_e by (rule ne)
          show "task_output (snd (suspend sched w1)) tid = Some a"
            unfolding to2 [unfolded w2_def] by (rule out)
          show "\<forall>t. task_output (snd (suspend sched w1)) t = Some a \<longrightarrow> t = tid"
            unfolding to2 [unfolded w2_def] by (rule own)
          show "\<exists>e\<in>set (heap (snd (suspend sched w1)) a
                           @ arrivals (fst (suspend sched w1)) tid). terminal e"
            unfolding h [unfolded w2_def sched2_def] by (rule trm')
        qed
        then obtain w' where
          r: "fetch_loop sched2 a w2 = Some (delivered (rest @ arrivals sched tid), w')"
          and t: "task_output w' = task_output w"
          unfolding h to2 by blast
        show ?thesis
          by (simp add: unfold nd ne r t Cons)
      qed
    qed
  qed
qed

text \<open>
  Claim C5 says that the sequence of events that \<open>fetch_task_result\<close> yields ends with
  exactly one terminal event delivered to the caller. In the code a \<open>done\<close> event leaves
  the loop without a \<open>yield\<close>: when the channel of task a holds a \<open>data\<close> event and a
  \<open>done\<close> event, the caller receives the \<open>data\<close> event only, and no terminal event.
\<close>

theorem fetch_task_result_done_not_delivered:
  "map_option (\<lambda>(events, e, w). (events, e, task_output w ''a''))
     (fetch_task_result [] ''a'' data_done_pending)
   = Some ([data_event ''a'' ''2''], None, None)"
  by (simp add: fetch_task_result_def data_done_pending_def submitted_def deliver_def
        push_task_result_def add_task_def init_worker_def greedy_task_def data_event_def
        fetch_loop.simps Let_def)

text \<open>
  Claim C5 as amended: for every task id whose channel (a list object that is the channel
  of no other id) holds or eventually receives a terminal event, \<open>fetch_task_result\<close>
  finishes without an exception; it yields, in channel order, every event before the first
  terminal event, followed by that terminal event when it is an \<open>error\<close>, while a \<open>done\<close>
  event ends the sequence without being delivered; and the channel entry of the task id
  is deleted afterwards.
\<close>

theorem fetch_task_result_delivered:
  assumes "task_output w tid = Some a"
    and "\<forall>t. task_output w t = Some a \<longrightarrow> t = tid"
    and "\<exists>e \<in> set (heap w a @ arrivals sched tid). terminal e"
  shows "\<exists>w'. fetch_task_result sched tid w
                 = Some (delivered (heap w a @ arrivals sched tid), None, w')
              \<and> task_output w' = (task_output w)(tid := None)"
proof -
  from fetch_loop_delivered [OF assms] obtain w1 where
    l: "fetch_loop sched a w = Some (delivered (heap w a @ arrivals sched tid), w1)"
    and t: "task_output w1 = task_output w" by blast
  show ?thesis
    using assms(1) l t by (simp add: fetch_task_result_def)
qed

text \<open>
  Task a is submitted; while its consumer is suspended a \<open>data\<close> event and then an
  \<open>error\<close> event arrive: the caller receives both, and the channel entry is deleted.
\<close>

theorem fetch_task_result_delivered_witness:
  "task_output submitted ''a'' = Some 0
   \<and> heap submitted 0 @ arrivals two_suspensions ''a''
       = [data_event ''a'' ''2'', BaseWorkerResult ''a'' ''error'']
   \<and> (\<exists>w'. fetch_task_result two_suspensions ''a'' submitted
               = Some ([data_event ''a'' ''2'', BaseWorkerResult ''a'' ''error''], None, w')
            \<and> task_output w' ''a'' = None)"
proof -
  have out: "task_output submitted ''a'' = Some 0"
    by (simp add: submitted_def add_task_def init_worker_def greedy_task_def)
  have own: "\<forall>t. task_output submitted t = Some 0 \<longrightarrow> t = ''a''"
    by (simp add: submitted_def add_task_def init_worker_def greedy_task_def)
  have evs: "heap submitted 0 @ arrivals two_suspensions ''a''
               = [data_event ''a'' ''2'', BaseWorkerResult ''a'' ''error'']"
    by (simp add: submitted_def add_task_def init_worker_def greedy_task_def arrivals_def
          two_suspensions_def)
  have trm: "\<exists>e \<in> set (heap submitted 0 @ arrivals two_suspensions ''a''). terminal e"
    unfolding evs by (simp add: terminal_def)
  have del: "delivered [data_event ''a'' ''2'', BaseWorkerResult ''a'' ''error'']
               = [data_event ''a'' ''2'', BaseWorkerResult ''a'' ''error'']"
    by (simp add: data_event_def)
  from fetch_task_result_delivered [OF out own trm]
  obtain w' where
    "fetch_task_result two_suspensions ''a'' submitted
       = Some ([data_event ''a'' ''2'', BaseWorkerResult ''a'' ''error''], None, w')"
    and "task_output w' = (task_output submitted)(''a'' := None)"
    unfolding evs del by blast
  then have "\<exists>w'. fetch_task_result two_suspensions ''a'' submitted
               = Some ([data_event ''a'' ''2'', BaseWorkerResult ''a'' ''error''], None, w')
            \<and> task_output w' ''a'' = None"
    by auto
  with out evs show ?thesis by blast
qed

section \<open>Theorems: the logits-processing chain\<close>

text \<open>
  Claim C7 says that the chain holds the temperature transform only when the temperature
  is neither within epsilon of 1 nor at least 1. The guard in the code is
  \<open>temperature >= 1e-5 and temperature != 1.0\<close>: at temperature 2 (which is at least 1)
  the chain holds the temperature transform.
\<close>

theorem prepare_logits_processor_temperature_counterexample:
  "TemperatureLogitsWarper 2 \<in> set (prepare_logits_processor 2 1 1 0) \<and> (2::real) \<ge> 1"
  by (simp add: prepare_logits_processor_def Let_def)

text \<open>
  Claim C7 as amended: for every parameter tuple the chain is, in this order, the
  temperature transform exactly when \<open>temperature \<ge> 1e-5\<close> and \<open>temperature \<noteq> 1.0\<close>, the
  repetition-penalty transform exactly when \<open>repetition_penalty > 1.0\<close>, the top-p
  transform exactly when \<open>1e-8 \<le> top_p < 1.0\<close>, and the top-k transform exactly when
  \<open>top_k > 0\<close>; each transform carries the parameter it was built from.
\<close>

theorem prepare_logits_processor_chain:
  "prepare_logits_processor t r p k =
     (if 1 / 100000 \<le> t \<and> t \<noteq> 1 then [TemperatureLogitsWarper t] else [])
     @ (if 1 < r then [RepetitionPenaltyLogitsProcessor r] else [])
     @ (if 1 / 100000000 \<le> p \<and> p < 1 then [TopPLogitsWarper p] else [])
     @ (if 0 < k then [TopKLogitsWarper k] else [])"
  by (simp add: prepare_logits_processor_def Let_def)

theorem prepare_logits_processor_chain_witness:
  "prepare_logits_processor (7 / 10) (11 / 10) (9 / 10) 40 =
     [TemperatureLogitsWarper (7 / 10), RepetitionPenaltyLogitsProcessor (11 / 10),
      TopPLogitsWarper (9 / 10), TopKLogitsWarper 40]
   \<and> prepare_logits_processor 0 1 1 0 = []"
  using prepare_logits_processor_chain [of "7 / 10" "11 / 10" "9 / 10" 40]
    prepare_logits_processor_chain [of 0 1 1 0]
  by simp

section \<open>Theorems: the token of a task\<close>

text \<open>
  With the empty chain and greedy decoding, the token of every task \<open>i\<close> is the arg-max
  of row 0 of the score matrix, and the scores are left as they were.
\<close>

lemma next_token_greedy_empty_chain:
  "temperature task < 1 / 100000 \<Longrightarrow>
     next_token B step task [] ids scores i = (argmax (scores ! 0), scores)"
  by (simp add: next_token_def)

text \<open>
  Claim C1 says that the token of task \<open>i\<close> is computed from task \<open>i\<close>'s own next-token
  logits. The code reads \<open>logits[i][-1]\<close> and then overwrites it, on both branches, with
  row 0 of the batch (\<open>logits_processor(...)[0]\<close>, \<open>logits[0, -1, :]\<close>). In a batch of
  two greedy tasks a and b, where the model scores \<open>[7, 1, 0]\<close> for b (arg-max: token 0)
  and \<open>[0, 1, 5]\<close> for a (arg-max: token 2), the token chosen for b at the first step is
  2: the \<open>data\<close> event of b carries the text of the new ids \<open>2, 2\<close>. (The pass then ends
  at \<open>torch.cat\<close>.)
\<close>

theorem next_token_uses_scores_of_first_task:
  "argmax (two_task_scores ! 1) = 0
   \<and> fst (next_token two_task_backend 0 (greedy_task ''b'' 1)
             (prepare_logits_processor 0 1 1 0) [[4], [5]] two_task_scores 1) = 2
   \<and> (case batch_generation two_task_backend 1 [greedy_task ''a'' 1, greedy_task ''b'' 1] of
         (st, e) \<Rightarrow> (map (\<lambda>r. (res_task_id r, res_type r, res_text r)) (yielded st), e))
       = ([(''a'', ''data'', ''2''), (''b'', ''data'', ''22'')], Some RuntimeError)"
  by code_simp

section \<open>Theorems: the events of a pass\<close>

text \<open>
  Claim C3 says that a single task with \<open>max_new_tokens = N\<close> that never chooses the
  end-of-sequence token gets exactly one \<open>done\<close> event, at step \<open>N - 1\<close>, and a last
  \<open>data\<close> event with \<open>completion_tokens = N\<close> and \<open>total_tokens = prompt_tokens + N\<close>.
  The code yields \<open>done\<close> only when the end-of-sequence token was chosen, and counts
  \<open>completion_tokens = step\<close>. For \<open>N = 1\<close> (prompt of one token) step 0 is the last
  step: the only event is a \<open>data\<close> event with \<open>completion_tokens = 0\<close> and
  \<open>total_tokens = 1\<close>, there is no \<open>done\<close> event, and the pass ends with the
  \<open>RuntimeError\<close> of \<open>torch.cat\<close>. For \<open>N = 2\<close> the events are the same: the pass ends
  at the same place, after step 0.
\<close>

theorem batch_generation_no_done_at_max_new_tokens:
  "(case batch_generation never_eos 1 [greedy_task ''a'' 1] of
      (st, e) \<Rightarrow> (yielded st, e))
     = ([GenerationWorkerResult ''a'' ''data'' ''2''
           \<lparr>prompt_tokens = 1, total_tokens = 1, completion_tokens = 0\<rparr>],
        Some RuntimeError)
   \<and> (case batch_generation never_eos 1 [greedy_task ''a'' 2] of
      (st, e) \<Rightarrow> (yielded st, e))
     = ([GenerationWorkerResult ''a'' ''data'' ''2''
           \<lparr>prompt_tokens = 1, total_tokens = 1, completion_tokens = 0\<rparr>],
        Some RuntimeError)"
  by code_simp

section \<open>Theorems: the first step of a pass\<close>








section \<open>Theorems: prompt catch-up\<close>




section \<open>Theorems: the \<open>done\<close> event of a task\<close>

text \<open>
  The events of one task at one step are for its id: at most one \<open>data\<close> event, then a
  \<open>done\<close> event if the end-of-sequence token was chosen. When all ids of the batch differ,
  nothing follows the first \<open>done\<close> event of an id within a step.
\<close>

lemma after_done_append_no_done:
  "\<forall>r \<in> set es. res_type r \<noteq> ''done'' \<Longrightarrow> after_done (es @ fs) = after_done fs"
  by (simp add: after_done_def dropWhile_append)







section \<open>Theorems: the queue length\<close>

lemma limiter_step_permits:
  assumes "permits l = capacity l - int (in_use l)" and "x = Release \<longrightarrow> 0 < in_use l"
  shows "permits (limiter_step x l) = capacity (limiter_step x l) - int (in_use (limiter_step x l))
         \<and> capacity (limiter_step x l) = capacity l"
proof (cases x)
  case (Acquire c)
  then show ?thesis using assms(1) by simp
next
  case Release
  with assms(2) have pos: "0 < in_use l" by simp
  show ?thesis
  proof (cases "waiters l")
    case None
    then show ?thesis using Release assms(1) pos by simp
  next
    case (Some ws)
    then show ?thesis using Release assms(1) pos by (cases ws) simp_all
  qed
qed

lemma run_ops_permits:
  "bracketed ops l \<Longrightarrow> permits l = capacity l - int (in_use l) \<Longrightarrow>
     permits (run_ops ops l) = capacity (run_ops ops l) - int (in_use (run_ops ops l))
     \<and> capacity (run_ops ops l) = capacity l"
proof (induction ops arbitrary: l)
  case Nil
  then show ?case by simp
next
  case (Cons x xs)
  have rel: "x = Release \<longrightarrow> 0 < in_use l"
    using Cons.prems(1) by (cases x) simp_all
  have next_ok: "bracketed xs (limiter_step x l)"
    using Cons.prems(1) by (cases x) simp_all
  from limiter_step_permits [OF Cons.prems(2) rel]
  have inv: "permits (limiter_step x l)
               = capacity (limiter_step x l) - int (in_use (limiter_step x l))"
    and cap: "capacity (limiter_step x l) = capacity l"
    by blast+
  from Cons.IH [OF next_ok inv] cap show ?case by simp
qed

text \<open>
  Without a semaphore, or when one of the counters of the semaphore is \<open>None\<close>, the
  reported queue length is 0, whatever is in use.
\<close>

lemma get_queue_length_no_semaphore:
  "model_semaphore w = None \<Longrightarrow> get_queue_length w = 0"
  by (simp add: get_queue_length_def)

lemma get_queue_length_no_counter:
  "model_semaphore w = Some sem \<Longrightarrow> sem_value sem = None \<or> sem_waiters sem = None \<Longrightarrow>
     get_queue_length w = 0"
  by (auto simp: get_queue_length_def split: option.splits)

text \<open>
  Claim C8 says that after every sequence of \<open>acquire\<close> and \<open>release\<close> operations
  \<open>get_queue_length\<close> returns exactly \<open>in_use + waiters\<close> and is never negative. After a
  single \<open>release\<close> on a fresh limiter of capacity 2 nothing is in use and nobody waits,
  but \<open>_value\<close> is 3 and the code returns \<open>2 - 3 + 0 = -1\<close>. And on a limiter whose
  collection of waiters does not exist yet, after one \<open>acquire\<close> one permit is in use and
  the code returns 0, by its guard on \<open>_waiters\<close>.
\<close>

theorem get_queue_length_unmatched_release_counterexample:
  "get_queue_length
     ((init_worker ''http://controller'' 2 2)
        \<lparr>model_semaphore := Some (semaphore_of (run_ops [Release] (new_limiter 2 False)))\<rparr>)
     = - 1
   \<and> in_use (run_ops [Release] (new_limiter 2 False)) = 0
   \<and> waiters (run_ops [Release] (new_limiter 2 False)) = Some []
   \<and> get_queue_length
       ((init_worker ''http://controller'' 2 2)
          \<lparr>model_semaphore := Some (semaphore_of (run_ops [Acquire 1] (new_limiter 2 True)))\<rparr>)
     = 0
   \<and> in_use (run_ops [Acquire 1] (new_limiter 2 True)) = 1"
  by (simp add: get_queue_length_def semaphore_of_def new_limiter_def init_worker_def)

text \<open>
  Claim C8 as amended: after every sequence of \<open>acquire\<close> and \<open>release\<close> operations in
  which every \<open>release\<close> is made while a permit is in use, on a limiter created with the
  worker's \<open>limit_model_concurrency\<close> as capacity, and once the semaphore has its
  collection of waiters, \<open>get_queue_length\<close> returns exactly \<open>in_use + waiters\<close>, which
  is \<open>capacity - (capacity - in_use) + waiters\<close>, and the result is not negative.
\<close>

theorem get_queue_length_in_use_plus_waiters:
  assumes "bracketed ops (new_limiter (limit_model_concurrency w) lazy)"
    and "l = run_ops ops (new_limiter (limit_model_concurrency w) lazy)"
    and "waiters l = Some ws"
  shows "get_queue_length (w\<lparr>model_semaphore := Some (semaphore_of l)\<rparr>)
           = int (in_use l) + int (length ws)
       \<and> get_queue_length (w\<lparr>model_semaphore := Some (semaphore_of l)\<rparr>)
           = capacity l - (capacity l - int (in_use l)) + int (length ws)
       \<and> 0 \<le> get_queue_length (w\<lparr>model_semaphore := Some (semaphore_of l)\<rparr>)"
proof -
  have "permits l = capacity l - int (in_use l) \<and> capacity l = limit_model_concurrency w"
    unfolding assms(2)
    using run_ops_permits [OF assms(1)] by (simp add: new_limiter_def)
  then show ?thesis
    by (simp add: get_queue_length_def semaphore_of_def assms(3))
qed

text \<open>
  Capacity 2; three callers acquire (the third waits, which creates the collection of
  waiters) and the first holder releases, which admits the waiter: two in use, nobody
  waiting, queue length 2.
\<close>

theorem get_queue_length_in_use_plus_waiters_witness:
  "bracketed [Acquire 1, Acquire 2, Acquire 3, Release]
     (new_limiter (limit_model_concurrency (init_worker ''http://controller'' 2 2)) True)
   \<and> run_ops [Acquire 1, Acquire 2, Acquire 3, Release]
       (new_limiter (limit_model_concurrency (init_worker ''http://controller'' 2 2)) True)
     = \<lparr>capacity = 2, permits = 0, in_use = 2, waiters = Some []\<rparr>
   \<and> get_queue_length
       ((init_worker ''http://controller'' 2 2)
          \<lparr>model_semaphore :=
             Some (semaphore_of \<lparr>capacity = 2, permits = 0, in_use = 2, waiters = Some []\<rparr>)\<rparr>)
     = 2"
proof -
  have b: "bracketed [Acquire 1, Acquire 2, Acquire 3, Release]
             (new_limiter (limit_model_concurrency (init_worker ''http://controller'' 2 2)) True)"
    by (simp add: new_limiter_def init_worker_def)
  have r: "run_ops [Acquire 1, Acquire 2, Acquire 3, Release]
             (new_limiter (limit_model_concurrency (init_worker ''http://controller'' 2 2)) True)
           = \<lparr>capacity = 2, permits = 0, in_use = 2, waiters = Some []\<rparr>"
    by (simp add: new_limiter_def init_worker_def)
  have ws: "waiters (run_ops [Acquire 1, Acquire 2, Acquire 3, Release]
             (new_limiter (limit_model_concurrency (init_worker ''http://controller'' 2 2))
                True)) = Some []"
    by (simp only: r limiter.simps)
  have "get_queue_length
          ((init_worker ''http://controller'' 2 2)
             \<lparr>model_semaphore :=
                Some (semaphore_of \<lparr>capacity = 2, permits = 0, in_use = 2,
                                       waiters = Some []\<rparr>)\<rparr>)
        = 2"
    using get_queue_length_in_use_plus_waiters [OF b refl ws]
    by (simp only: r limiter.simps) simp
  with b r show ?thesis by blast
qed

section \<open>Theorems: lifecycle\<close>

text \<open>
  Claim C9: \<open>start\<close> and \<open>stop\<close> are idempotent. From an offline worker without a
  heartbeat timer (as \<open>__init__\<close> and \<open>stop\<close> leave it), a \<open>start\<close> whose registration is
  answered with status 200 installs the heartbeat timer, then makes the one registration
  call, then marks the worker online; a second \<open>start\<close>, whatever the controller would
  answer, returns at once and changes nothing. From an online worker, a \<open>stop\<close> whose
  deregistration is answered with status 200 cancels every timer, clears them, makes the
  one deregistration call and marks the worker offline; a second \<open>stop\<close> changes nothing.
\<close>

theorem start_stop_idempotent:
  "(\<not> online w \<and> ''heartbeat'' \<notin> set (map fst (timers w)) \<longrightarrow>
      start (Status 200) w =
        (None, w\<lparr>timers := timers w @ [(''heartbeat'',
                      \<lparr>interval = WORKER_HEART_BEAT_CHECK_INTERVAL,
                       callback = ''WorkerHeartBeat''\<rparr>)],
                  trace := trace w @ [TimerStart ''heartbeat'',
                                      Post (controller_addr w @ ''/register_worker'')],
                  online := True\<rparr>)
      \<and> start r (snd (start (Status 200) w)) = (None, snd (start (Status 200) w)))
   \<and> (online w \<longrightarrow>
      stop (Status 200) w =
        (None, w\<lparr>trace := trace w @ map (\<lambda>(name, timer). TimerCancel name) (timers w)
                           @ [Post (controller_addr w @ ''/remove_worker'')],
                  timers := [],
                  online := False\<rparr>)
      \<and> stop r (snd (stop (Status 200) w)) = (None, snd (stop (Status 200) w)))"
  by (simp add: start_def stop_def add_timer_def register_to_controller_def
        remove_from_controller_def post_and_assert_def Let_def)

text \<open>
  A fresh worker is started twice and then stopped twice; the second calls get no answer
  from the controller and need none. The trace holds one timer start, one registration,
  one timer cancellation and one deregistration.
\<close>

theorem start_stop_idempotent_witness:
  "\<not> online (init_worker ''http://controller'' 5 2)
   \<and> ''heartbeat'' \<notin> set (map fst (timers (init_worker ''http://controller'' 5 2)))
   \<and> online (snd (start (Status 200) (init_worker ''http://controller'' 5 2)))
   \<and> trace (snd (start NoReply (snd (start (Status 200)
              (init_worker ''http://controller'' 5 2)))))
       = [TimerStart ''heartbeat'', Post ''http://controller/register_worker'']
   \<and> trace (snd (stop NoReply (snd (stop (Status 200)
              (snd (start (Status 200) (init_worker ''http://controller'' 5 2)))))))
       = [TimerStart ''heartbeat'', Post ''http://controller/register_worker'',
          TimerCancel ''heartbeat'', Post ''http://controller/remove_worker'']
   \<and> \<not> online (snd (stop NoReply (snd (stop (Status 200)
              (snd (start (Status 200) (init_worker ''http://controller'' 5 2)))))))"
proof -
  define w0 where "w0 = init_worker ''http://controller'' 5 2"
  define w1 where "w1 = snd (start (Status 200) w0)"
  define w2 where "w2 = snd (stop (Status 200) w1)"
  have off: "\<not> online w0 \<and> ''heartbeat'' \<notin> set (map fst (timers w0))"
    by (simp add: w0_def init_worker_def)
  from start_stop_idempotent [of w0 NoReply] off
  have first: "start (Status 200) w0 =
        (None, w0\<lparr>timers := timers w0 @ [(''heartbeat'',
                      \<lparr>interval = WORKER_HEART_BEAT_CHECK_INTERVAL,
                       callback = ''WorkerHeartBeat''\<rparr>)],
                  trace := trace w0 @ [TimerStart ''heartbeat'',
                                      Post (controller_addr w0 @ ''/register_worker'')],
                  online := True\<rparr>)"
    and again: "start NoReply w1 = (None, w1)"
    unfolding w1_def by blast+
  have on: "online w1"
    and tr1: "trace w1 = [TimerStart ''heartbeat'', Post ''http://controller/register_worker'']"
    and tm1: "timers w1 = [(''heartbeat'', \<lparr>interval = WORKER_HEART_BEAT_CHECK_INTERVAL,
                                            callback = ''WorkerHeartBeat''\<rparr>)]"
    and ad1: "controller_addr w1 = ''http://controller''"
    unfolding w1_def first by (simp_all add: w0_def init_worker_def)
  from start_stop_idempotent [of w1 NoReply] on
  have halt: "stop (Status 200) w1 =
        (None, w1\<lparr>trace := trace w1 @ map (\<lambda>(name, timer). TimerCancel name) (timers w1)
                           @ [Post (controller_addr w1 @ ''/remove_worker'')],
                  timers := [],
                  online := False\<rparr>)"
    and halt_again: "stop NoReply w2 = (None, w2)"
    unfolding w2_def by blast+
  have tr2: "trace w2 = [TimerStart ''heartbeat'', Post ''http://controller/register_worker'',
                         TimerCancel ''heartbeat'', Post ''http://controller/remove_worker'']"
    and off2: "\<not> online w2"
    unfolding w2_def halt by (simp_all add: tr1 tm1 ad1)
  show ?thesis
    using off on tr1 tr2 off2 again halt_again
    unfolding w2_def w1_def w0_def by simp
qed

section \<open>Theorems: duplicate submission\<close>

lemma channels_wf_init: "channels_wf (init_worker addr limit mb)"
  by (simp add: channels_wf_def init_worker_def)

lemma channels_wf_add_task: "channels_wf w \<Longrightarrow> channels_wf (add_task t w)"
  by (auto simp: channels_wf_def add_task_def less_Suc_eq)

lemma channels_wf_push_task_result:
  "channels_wf w \<Longrightarrow> push_task_result tid r w = Inr w' \<Longrightarrow> channels_wf w'"
  by (auto simp: channels_wf_def push_task_result_def split: option.splits)

text \<open>
  Claim C10: when \<open>add_task\<close> is called with a task whose \<open>task_id\<close> already has a result
  channel (the list object \<open>a\<close>), the channel of that id becomes a fresh list object,
  different from \<open>a\<close> and empty, whatever events \<open>a\<close> still holds: they are not copied
  and no exception is raised (the old object itself is left as it was, no longer the
  channel of the id). The task is appended to the queue once more.
\<close>

theorem add_task_duplicate_replaces_channel:
  "channels_wf w \<and> task_output w (task_id t) = Some a \<longrightarrow>
     task_output (add_task t w) (task_id t) = Some (next_addr w)
     \<and> next_addr w \<noteq> a
     \<and> heap (add_task t w) (next_addr w) = []
     \<and> heap (add_task t w) a = heap w a
     \<and> task_queue (add_task t w) = task_queue w @ [t]
     \<and> count_list (task_queue (add_task t w)) t = Suc (count_list (task_queue w) t)"
  by (auto simp: add_task_def channels_wf_def)

text \<open>
  Task a is submitted, an event is pushed to its channel, and task a is submitted again:
  the channel of a is the new empty list 1, and a is queued twice.
\<close>

theorem add_task_duplicate_replaces_channel_witness:
  "channels_wf one_pending \<and> task_output one_pending ''a'' = Some 0
   \<and> heap one_pending 0 = [BaseWorkerResult ''a'' ''error'']
   \<and> task_output (add_task (greedy_task ''a'' 1) one_pending) ''a'' = Some 1
   \<and> heap (add_task (greedy_task ''a'' 1) one_pending) 1 = []
   \<and> heap (add_task (greedy_task ''a'' 1) one_pending) 0 = [BaseWorkerResult ''a'' ''error'']
   \<and> map task_id (task_queue (add_task (greedy_task ''a'' 1) one_pending)) = [''a'', ''a'']"
proof -
  have op: "one_pending =
      (add_task (greedy_task ''a'' 1) (init_worker ''http://controller'' 5 2))
        \<lparr>heap := (heap (add_task (greedy_task ''a'' 1)
                          (init_worker ''http://controller'' 5 2)))
                   (0 := [BaseWorkerResult ''a'' ''error''])\<rparr>"
    by (simp add: one_pending_def push_task_result_def add_task_def init_worker_def
          greedy_task_def)
  have wf: "channels_wf one_pending"
    unfolding op by (simp add: channels_wf_def add_task_def init_worker_def greedy_task_def)
  have out: "task_output one_pending (task_id (greedy_task ''a'' 1)) = Some 0"
    unfolding op by (simp add: add_task_def init_worker_def greedy_task_def)
  from add_task_duplicate_replaces_channel [of one_pending "greedy_task ''a'' 1" 0] wf out
  show ?thesis
    unfolding op by (simp add: add_task_def init_worker_def greedy_task_def)
qed

end
